theory Spec2Isabelle
  imports Complex_Main "HOL-Library.Sublist" "HOL-Library.AList"
begin

section \<open>Python values\<close>

text \<open>
  A Python \<open>str\<close> is modelled as a \<open>string\<close>: each character is one code point
  below 256 (the Latin-1 range), and the library functions \<open>lower\<close>, \<open>strip\<close> and the
  regular-expression classes are written out exactly for that range. The few code points
  above 255 that occur in literals of the source (check marks, bullets, the key emoji) are
  written as their UTF-8 bytes; nothing proved below depends on them.

  A dictionary is an association list with distinct keys in insertion order, as a Python
  \<open>dict\<close> keeps it; a value of a dictionary is a \<open>pyval\<close>. A float is represented by
  the real number it denotes, which is all that a comparison reads.
\<close>

datatype py_error = TypeError | AttributeError | IndexError | CsvError

datatype pyval = PyNone | PyBool bool | PyInt int | PyFloat real | PyStr string

type_synonym pydict = "(string \<times> pyval) list"

definition bnd :: "py_error + 'a \<Rightarrow> ('a \<Rightarrow> py_error + 'b) \<Rightarrow> py_error + 'b" where
  "bnd m f = (case m of Inl e \<Rightarrow> Inl e | Inr v \<Rightarrow> f v)"

definition dict_get :: "pydict \<Rightarrow> string \<Rightarrow> pyval \<Rightarrow> pyval" where
  "dict_get d k dflt = (case map_of d k of None \<Rightarrow> dflt | Some v \<Rightarrow> v)"

fun truthy :: "pyval \<Rightarrow> bool" where
  "truthy PyNone = False"
| "truthy (PyBool b) = b"
| "truthy (PyInt i) = (i \<noteq> 0)"
| "truthy (PyFloat r) = (r \<noteq> 0)"
| "truthy (PyStr s) = (s \<noteq> [])"

text \<open>The number a value denotes in an ordering comparison; \<open>None\<close> and strings have none,
  and comparing them with a number raises \<open>TypeError\<close>.\<close>

fun num_of :: "pyval \<Rightarrow> py_error + real" where
  "num_of PyNone = Inl TypeError"
| "num_of (PyBool b) = Inr (if b then 1 else 0)"
| "num_of (PyInt i) = Inr (of_int i)"
| "num_of (PyFloat r) = Inr r"
| "num_of (PyStr s) = Inl TypeError"

subsection \<open>Strings\<close>

definition py_in :: "string \<Rightarrow> string \<Rightarrow> bool" where
  "py_in sub s = sublist sub s"

text \<open>\<open>str.lower\<close> on the Latin-1 range: the upper-case letters are \<open>A\<close> to \<open>Z\<close> and the code
  points 192 to 222 except 215; each moves up by 32, which sets bit 5.\<close>

definition is_upper :: "char \<Rightarrow> bool" where
  "is_upper c =
     (let n = (of_char c :: nat) in
      (65 \<le> n \<and> n \<le> 90) \<or> (192 \<le> n \<and> n \<le> 222 \<and> n \<noteq> 215))"

definition lower_char :: "char \<Rightarrow> char" where
  "lower_char c =
     (if is_upper c
      then (case c of Char b0 b1 b2 b3 b4 b5 b6 b7 \<Rightarrow> Char b0 b1 b2 b3 b4 True b6 b7)
      else c)"

definition lower :: "string \<Rightarrow> string" where
  "lower s = map lower_char s"

definition digit_char :: "nat \<Rightarrow> char" where
  "digit_char n = ''0123456789'' ! n"

fun str_nat :: "nat \<Rightarrow> string" where
  "str_nat n = (if n < 10 then [digit_char n] else str_nat (n div 10) @ [digit_char (n mod 10)])"

declare str_nat.simps [simp del]

definition str_int :: "int \<Rightarrow> string" where
  "str_int i = (if i < 0 then CHR ''-'' # str_nat (nat (- i)) else str_nat (nat i))"

section \<open>Response-likelihood scorer (influencer_parser.py)\<close>

record response =
  score :: int
  likelihood :: string
  factors :: "string list"

definition check_mark :: string where
  "check_mark = [CHR 0xE2, CHR 0xC5, CHR 0x93, CHR 0xE2, CHR 0x80, CHR 0x9C]"

definition cross_mark :: string where
  "cross_mark = [CHR 0xE2, CHR 0xC5, CHR 0x93, CHR 0xE2, CHR 0x80, CHR 0x94]"

type_synonym tally = "int \<times> string list"

definition email_step :: "bool \<Rightarrow> tally \<Rightarrow> tally" where
  "email_step has_email t =
     (case t of (sc, fs) \<Rightarrow>
        if has_email then (sc + 20, fs @ [check_mark @ '' Email available''])
        else (sc - 15, fs @ [cross_mark @ '' No email found'']))"

definition business_step :: "pyval \<Rightarrow> tally \<Rightarrow> tally" where
  "business_step has_business_terms t =
     (case t of (sc, fs) \<Rightarrow>
        if has_business_terms = PyStr ''Yes''
        then (sc + 15, fs @ [check_mark @ '' Open to business''])
        else t)"

definition contact_step :: "nat \<Rightarrow> tally \<Rightarrow> tally" where
  "contact_step contact_methods t =
     (case t of (sc, fs) \<Rightarrow>
        if contact_methods \<ge> 3
        then (sc + 10, fs @ [check_mark @ str_nat contact_methods @ '' contact methods''])
        else t)"

definition sentiment_step :: "pyval \<Rightarrow> tally \<Rightarrow> tally" where
  "sentiment_step sentiment t =
     (case t of (sc, fs) \<Rightarrow>
        if sentiment = PyStr ''very_positive''
        then (sc + 10, fs @ [check_mark @ '' Very positive about indies''])
        else if sentiment = PyStr ''positive''
        then (sc + 5, fs @ [check_mark @ '' Positive about indies''])
        else if sentiment \<in> set [PyStr ''negative'', PyStr ''very_negative'']
        then (sc - 10, fs @ [cross_mark @ '' Not focused on indies''])
        else t)"

definition upload_step :: "real \<Rightarrow> tally \<Rightarrow> tally" where
  "upload_step upload_freq t =
     (case t of (sc, fs) \<Rightarrow>
        if upload_freq > 0 \<and> upload_freq \<le> 3
        then (sc + 10, fs @ [check_mark @ '' Very active (posts daily)''])
        else if upload_freq \<le> 7
        then (sc + 5, fs @ [check_mark @ '' Active (posts weekly)''])
        else if upload_freq > 30
        then (sc - 10, fs @ [cross_mark @ '' Inactive creator''])
        else t)"

definition engagement_step :: "real \<Rightarrow> tally \<Rightarrow> tally" where
  "engagement_step engagement t =
     (case t of (sc, fs) \<Rightarrow>
        if engagement > 10
        then (sc + 10, fs @ [check_mark @ '' High engagement rate''])
        else if engagement > 5
        then (sc + 5, fs @ [check_mark @ '' Good engagement''])
        else if engagement < 1 \<and> engagement > 0
        then (sc - 5, fs @ [''~ Low engagement''])
        else t)"

definition followers_step :: "real \<Rightarrow> tally \<Rightarrow> tally" where
  "followers_step followers t =
     (case t of (sc, fs) \<Rightarrow>
        if 5000 \<le> followers \<and> followers \<le> 100000
        then (sc + 10, fs @ [check_mark @ '' Mid-tier size (responsive)''])
        else if followers > 500000
        then (sc - 10, fs @ [''~ Very large (less personal)''])
        else t)"

definition likelihood_of :: "int \<Rightarrow> string" where
  "likelihood_of sc =
     (if sc \<ge> 75 then ''Very High''
      else if sc \<ge> 60 then ''High''
      else if sc \<ge> 40 then ''Medium''
      else if sc \<ge> 25 then ''Low''
      else ''Very Low'')"

definition calculate_response_likelihood :: "pydict \<Rightarrow> py_error + response" where
  "calculate_response_likelihood influencer_data =
     bnd (num_of (dict_get influencer_data ''email_count'' (PyInt 0))) (\<lambda>email_count.
     let t = email_step (email_count > 0) (50, []);
         t = business_step (dict_get influencer_data ''has_business_terms'' PyNone) t;
         contact_methods = sum_list
           [if email_count > 0 then 1 else 0,
            if truthy (dict_get influencer_data ''twitter'' PyNone) then 1 else 0,
            if truthy (dict_get influencer_data ''discord'' PyNone) then 1 else 0,
            if truthy (dict_get influencer_data ''instagram'' PyNone) then 1 else 0];
         t = contact_step contact_methods t;
         t = sentiment_step (dict_get influencer_data ''indie_sentiment'' (PyStr ''neutral'')) t
     in
     bnd (num_of (dict_get influencer_data ''upload_frequency_days'' (PyInt 0))) (\<lambda>upload_freq.
     let t = upload_step upload_freq t in
     bnd (num_of (dict_get influencer_data ''engagement_rate_numeric'' (PyInt 0))) (\<lambda>engagement.
     let t = engagement_step engagement t in
     bnd (num_of (dict_get influencer_data ''followers'' (PyInt 0))) (\<lambda>followers.
     let t = followers_step followers t;
         sc = max 0 (min 100 (fst t))
     in Inr \<lparr>score = sc, likelihood = likelihood_of sc, factors = snd t\<rparr>))))"

section \<open>Content classifier (influencer_parser.py)\<close>

text \<open>\<open>sep.join(xs)\<close>.\<close>

fun py_join :: "string \<Rightarrow> string list \<Rightarrow> string" where
  "py_join sep [] = []"
| "py_join sep [x] = x"
| "py_join sep (x # y # ys) = x @ sep @ py_join sep (y # ys)"

definition dev_keywords :: "string list" where
  "dev_keywords =
     [''game developer'', ''game dev'', ''gamedev'', ''indie dev'',
      ''developing'', ''my game'', ''our game'', ''game studio'',
      ''game designer'', ''game artist'', ''game programmer'',
      ''unity tutorial'', ''unreal tutorial'', ''godot tutorial'',
      ''game development'', ''making games'', ''created by'']"

definition creator_keywords :: "string list" where
  "creator_keywords =
     [''gameplay'', ''playthrough'', ''lets play'', ''let'' @ [CHR 0x27] @ ''s play'',
      ''walkthrough'', ''speedrun'', ''playing'', ''streamer'',
      ''twitch'', ''gamer'', ''gaming channel'', ''game review'',
      ''first impressions'', ''indie game showcase'']"

definition non_gaming :: "string list" where
  "non_gaming =
     [''vlog'', ''recipe'', ''cooking'', ''makeup'', ''fashion'',
      ''lifestyle'', ''music video'', ''official music'']"

definition is_gaming_channel :: "string \<Rightarrow> string list \<Rightarrow> bool" where
  "is_gaming_channel description video_titles =
     (let text = lower (description @ '' '' @ py_join '' '' video_titles);
          dev_score = sum_list (map (\<lambda>keyword. 2) (filter (\<lambda>keyword. py_in keyword text) dev_keywords));
          creator_score = sum_list (map (\<lambda>keyword. 1) (filter (\<lambda>keyword. py_in keyword text) creator_keywords));
          non_gaming_score = sum_list (map (\<lambda>keyword. 1) (filter (\<lambda>keyword. py_in keyword text) non_gaming))
      in if dev_score > (1::int) then False
         else if non_gaming_score > (creator_score::int) then False
         else creator_score \<ge> 2)"

section \<open>Sentiment scorer (influencer_parser.py)\<close>

record sentiment_result =
  sent_score :: real
  sentiment :: string
  indicators :: "string list"

definition positive_keywords :: "string list" where
  "positive_keywords =
     [''indie'', ''independent games'', ''small studios'', ''indie dev'',
      ''support indie'', ''hidden gems'', ''indie titles'', ''indie scene'',
      ''unique games'', ''creative games'', ''innovative'', ''experimental'',
      ''passion project'', ''handcrafted'', ''artistic'', ''indie darling'']"

definition negative_keywords :: "string list" where
  "negative_keywords =
     [''aaa only'', ''no indie'', ''major titles only'', ''big budget only'',
      ''triple-a exclusive'']"

definition neutral_keywords :: "string list" where
  "neutral_keywords = [''all games'', ''variety'', ''mixed content'', ''different genres'']"

text \<open>\<open>round(x, 2)\<close> on the real value of a float: to the nearest multiple of 1/100, a tie
  going to the even one.\<close>

definition round_half_even :: "real \<Rightarrow> int" where
  "round_half_even x =
     (let f = \<lfloor>x\<rfloor>; d = x - of_int f
      in if d < 1 / 2 then f else if d > 1 / 2 then f + 1 else if even f then f else f + 1)"

definition py_round2 :: "real \<Rightarrow> real" where
  "py_round2 x = of_int (round_half_even (x * 100)) / 100"

definition sentiment_of :: "real \<Rightarrow> string" where
  "sentiment_of sc =
     (if sc \<ge> 3 then ''very_positive''
      else if sc \<ge> 1 then ''positive''
      else if sc \<ge> -1 then ''neutral''
      else if sc \<ge> -3 then ''negative''
      else ''very_negative'')"

definition analyze_sentiment :: "string \<Rightarrow> sentiment_result" where
  "analyze_sentiment text =
     (if text = [] then \<lparr>sent_score = 0, sentiment = ''neutral'', indicators = []\<rparr>
      else
        let text_lower = lower text;
            positive_count = sum_list (map (\<lambda>keyword. 1) (filter (\<lambda>keyword. py_in keyword text_lower) positive_keywords));
            negative_count = sum_list (map (\<lambda>keyword. 1) (filter (\<lambda>keyword. py_in keyword text_lower) negative_keywords));
            neutral_count = sum_list (map (\<lambda>keyword. 1) (filter (\<lambda>keyword. py_in keyword text_lower) neutral_keywords));
            sc = (positive_count * 2) - (negative_count * 3) + (neutral_count * (1 / 2));
            sc = max (-10) (min 10 sc);
            indicators = map (\<lambda>keyword. ''+'' @ keyword) (filter (\<lambda>keyword. py_in keyword text_lower) positive_keywords)
                       @ map (\<lambda>keyword. ''-'' @ keyword) (filter (\<lambda>keyword. py_in keyword text_lower) negative_keywords)
        in \<lparr>sent_score = py_round2 sc, sentiment = sentiment_of sc, indicators = take 5 indicators\<rparr>)"

section \<open>Key assignment ledger (gmail_draft_generator.py)\<close>

text \<open>
  The ledger file \<open>key_assignments.json\<close> holds one JSON object: contact address to entry,
  an entry being an object of fields. The state of the file is a \<open>ledger option\<close>,
  \<open>None\<close> when the file does not exist. \<open>datetime.now().isoformat()\<close> is read from a
  clock: \<open>clock t\<close> is the text of the \<open>t\<close>-th reading.
\<close>

type_synonym ledger = "(string \<times> pydict) list"

definition load_key_assignments :: "ledger option \<Rightarrow> ledger" where
  "load_key_assignments file = (case file of None \<Rightarrow> [] | Some assignments \<Rightarrow> assignments)"

definition save_key_assignment :: "ledger \<Rightarrow> ledger option" where
  "save_key_assignment assignments = Some assignments"

definition dict_set :: "('k \<times> 'v) list \<Rightarrow> 'k \<Rightarrow> 'v \<Rightarrow> ('k \<times> 'v) list" where
  "dict_set d k v = AList.update k v d"

fun mark_loop :: "(nat \<Rightarrow> string) \<Rightarrow> nat \<Rightarrow> string list \<Rightarrow> ledger \<Rightarrow> ledger" where
  "mark_loop clock t [] assignments = assignments"
| "mark_loop clock t (email # rest) assignments =
     (case map_of assignments email of
        None \<Rightarrow> mark_loop clock t rest assignments
      | Some entry \<Rightarrow>
          let entry = dict_set entry ''sent'' (PyBool True);
              entry = dict_set entry ''sent_date'' (PyStr (clock t))
          in mark_loop clock (Suc t) rest (dict_set assignments email entry))"

definition mark_as_sent :: "(nat \<Rightarrow> string) \<Rightarrow> string list \<Rightarrow> ledger option \<Rightarrow> ledger option" where
  "mark_as_sent clock email_addresses file =
     (let assignments = load_key_assignments file
      in save_key_assignment (mark_loop clock 0 email_addresses assignments))"

text \<open>Two entries agree on every field other than \<open>sent\<close> and \<open>sent_date\<close>.\<close>

definition same_other_fields :: "pydict \<Rightarrow> pydict \<Rightarrow> bool" where
  "same_other_fields entry entry' =
     (\<forall>f. f \<noteq> ''sent'' \<and> f \<noteq> ''sent_date'' \<longrightarrow> map_of entry' f = map_of entry f)"

text \<open>An entry carries the sent flag and a reading of the clock as its sent date.\<close>

definition marked_sent :: "(nat \<Rightarrow> string) \<Rightarrow> pydict \<Rightarrow> bool" where
  "marked_sent clock entry =
     (map_of entry ''sent'' = Some (PyBool True)
      \<and> (\<exists>t. map_of entry ''sent_date'' = Some (PyStr (clock t))))"

section \<open>Email extraction (influencer_parser.py)\<close>

text \<open>\<open>s.replace(old, new)\<close>: the occurrences of \<open>old\<close> are found from left to right without
  overlap; an empty \<open>old\<close> matches before every character and at the end.\<close>

function py_replace :: "string \<Rightarrow> string \<Rightarrow> string \<Rightarrow> string" where
  "py_replace old new [] = (if old = [] then new else [])"
| "py_replace old new (c # cs) =
     (if old = [] then new @ c # py_replace old new cs
      else if prefix old (c # cs) then new @ py_replace old new (drop (length old) (c # cs))
      else c # py_replace old new cs)"
  by pat_completeness auto
termination
  by (relation "measure (\<lambda>(old, new, s). length s)") auto

text \<open>The character classes of the pattern
  \<^verbatim>\<open>\b[A-Za-z0-9._%+-]+@[A-Za-z0-9.-]+\.[A-Z|a-z]{2,}\b\<close>
  and the word characters \<^verbatim>\<open>\w\<close> of a \<open>str\<close> pattern on the Latin-1 range.\<close>

definition is_ascii_alpha :: "char \<Rightarrow> bool" where
  "is_ascii_alpha c =
     (let n = (of_char c :: nat) in (65 \<le> n \<and> n \<le> 90) \<or> (97 \<le> n \<and> n \<le> 122))"

definition is_ascii_digit :: "char \<Rightarrow> bool" where
  "is_ascii_digit c = (let n = (of_char c :: nat) in 48 \<le> n \<and> n \<le> 57)"

definition is_local :: "char \<Rightarrow> bool" where
  "is_local c = (is_ascii_alpha c \<or> is_ascii_digit c \<or> c \<in> set ''._%+-'')"

definition is_domain :: "char \<Rightarrow> bool" where
  "is_domain c = (is_ascii_alpha c \<or> is_ascii_digit c \<or> c \<in> set ''.-'')"

definition is_tld :: "char \<Rightarrow> bool" where
  "is_tld c = (is_ascii_alpha c \<or> c = CHR ''|'')"

definition is_word :: "char \<Rightarrow> bool" where
  "is_word c =
     (let n = (of_char c :: nat) in
      is_ascii_alpha c \<or> is_ascii_digit c \<or> c = CHR ''_''
      \<or> n \<in> set [170, 178, 179, 181, 185, 186, 188, 189, 190]
      \<or> (192 \<le> n \<and> n \<noteq> 215 \<and> n \<noteq> 247))"

text \<open>\<^verbatim>\<open>\b\<close> between two neighbouring positions; \<open>None\<close> is the outside of the text.\<close>

definition word_at :: "char option \<Rightarrow> bool" where
  "word_at p = (case p of None \<Rightarrow> False | Some c \<Rightarrow> is_word c)"

definition boundary :: "char option \<Rightarrow> char option \<Rightarrow> bool" where
  "boundary prev nxt = (word_at prev \<noteq> word_at nxt)"

definition nth_opt :: "'a list \<Rightarrow> nat \<Rightarrow> 'a option" where
  "nth_opt xs i = (if i < length xs then Some (xs ! i) else None)"

fun first_some :: "('a \<Rightarrow> 'b option) \<Rightarrow> 'a list \<Rightarrow> 'b option" where
  "first_some f [] = None"
| "first_some f (x # xs) = (case f x of Some y \<Rightarrow> Some y | None \<Rightarrow> first_some f xs)"

text \<open>
  The backtracking of the pattern at one start position. The local part is the longest
  run of its class (the next character must be \<open>@\<close>, which is not in the class). The
  domain run is tried from its longest split down: after \<open>k\<close> characters of the run a dot
  must follow, then \<open>j \<ge> 2\<close> characters of the last class, the longest \<open>j\<close> first, with a
  word boundary after them. The result is the length of the match.
\<close>

definition match_tld :: "string \<Rightarrow> nat option" where
  "match_tld s =
     (let m = length (takeWhile is_tld s)
      in first_some (\<lambda>j. if boundary (nth_opt s (j - 1)) (nth_opt s j) then Some j else None)
           (rev [2..<Suc m]))"

definition match_domain :: "string \<Rightarrow> nat option" where
  "match_domain s =
     (let d = length (takeWhile is_domain s)
      in first_some
           (\<lambda>k. if s ! k = CHR ''.''
                then map_option (\<lambda>j. k + 1 + j) (match_tld (drop (k + 1) s))
                else None)
           (rev [1..<d]))"

definition match_email :: "char option \<Rightarrow> string \<Rightarrow> nat option" where
  "match_email prev s =
     (let l = length (takeWhile is_local s)
      in if l = 0 \<or> \<not> boundary prev (nth_opt s 0) then None
         else if nth_opt s l = Some CHR ''@''
         then map_option (\<lambda>n. l + 1 + n) (match_domain (drop (l + 1) s))
         else None)"

lemma match_email_positive: "match_email prev s = Some n \<Longrightarrow> 0 < n"
  by (auto simp add: match_email_def Let_def split: if_splits)

text \<open>\<open>re.findall\<close>: the matches from left to right, the scan resuming where a match ended.\<close>

function findall_email :: "char option \<Rightarrow> string \<Rightarrow> string list" where
  "findall_email prev [] = []"
| "findall_email prev (c # cs) =
     (case match_email prev (c # cs) of
        Some n \<Rightarrow> take n (c # cs) # findall_email (nth_opt (c # cs) (n - 1)) (drop n (c # cs))
      | None \<Rightarrow> findall_email (Some c) cs)"
  by pat_completeness auto
termination
  by (relation "measure (\<lambda>(prev, s). length s)") (auto dest: match_email_positive)

definition normalize_obfuscations :: "string \<Rightarrow> string" where
  "normalize_obfuscations text =
     (let text = py_replace '' at '' ''@'' (py_replace ''(at)'' ''@'' (py_replace ''[at]'' ''@'' text));
          text = py_replace '' dot '' ''.'' (py_replace ''(dot)'' ''.'' (py_replace ''[dot]'' ''.'' text));
          text = py_replace ''(AT)'' ''@'' (py_replace ''[AT]'' ''@'' text);
          text = py_replace ''(DOT)'' ''.'' (py_replace ''[DOT]'' ''.'' text);
          text = py_replace '' . '' ''.'' (py_replace '' @ '' ''@'' text)
      in text)"

definition skip_list :: "string list" where
  "skip_list = [''example.com'', ''domain.com'', ''email.com'', ''youremail'', ''noreply'', ''support@'']"

definition filtered_emails :: "string \<Rightarrow> string list" where
  "filtered_emails text =
     (let emails = findall_email None (normalize_obfuscations text)
      in filter (\<lambda>email. \<not> list_ex (\<lambda>skip. py_in skip (lower email)) skip_list) emails)"

text \<open>\<open>list(set(xs))\<close> returns the distinct elements of \<open>xs\<close> in an order that Python does not
  fix; \<open>list_of_set xs res\<close> says that \<open>res\<close> is such a list. \<open>extract_emails text res\<close> says
  that \<open>res\<close> is a list the function may return on \<open>text\<close>.\<close>

definition list_of_set :: "string list \<Rightarrow> string list \<Rightarrow> bool" where
  "list_of_set xs res = (distinct res \<and> set res = set xs)"

definition extract_emails :: "string \<Rightarrow> string list \<Rightarrow> bool" where
  "extract_emails text res =
     (if text = [] then res = [] else list_of_set (filtered_emails text) res)"





section \<open>Properties of the response-likelihood scorer\<close>

text \<open>
  C2. The claim gives an upload frequency of 0 days (meaning "unknown") the adjustment 0,
  outside all three bands. In the code the first band is guarded by \<open>upload_freq > 0\<close>, but
  the second band is only \<open>upload_freq <= 7\<close>, so the value 0 falls into it: the score
  rises by 5 and the factor "Active (posts weekly)" is recorded.
\<close>

theorem upload_step_unknown_frequency:
  "upload_step 0 t = (fst t + 5, snd t @ [check_mark @ '' Active (posts weekly)''])"
  by (simp add: upload_step_def split: prod.splits)

text \<open>
  C3. The base-case record of the claim (no email, no business terms, one contact method,
  neutral sentiment, upload frequency 0, engagement 0, 50000 followers) is scored
  50 - 15 + 5 + 10 = 50 by the code, not 45: the upload frequency 0 earns the
  "posts weekly" bonus. The category is "Medium" in both cases.
\<close>

theorem base_case_response_likelihood:
  "calculate_response_likelihood
      [(''email_count'', PyInt 0), (''has_business_terms'', PyStr ''No''),
       (''twitter'', PyStr ''somebody''), (''instagram'', PyStr []), (''discord'', PyStr []),
       (''indie_sentiment'', PyStr ''neutral''), (''upload_frequency_days'', PyInt 0),
       (''engagement_rate_numeric'', PyInt 0), (''followers'', PyInt 50000)]
   = Inr \<lparr>score = 50, likelihood = ''Medium'',
          factors = [cross_mark @ '' No email found'', check_mark @ '' Active (posts weekly)'',
                     check_mark @ '' Mid-tier size (responsive)'']\<rparr>"
  by (simp add: calculate_response_likelihood_def bnd_def dict_get_def email_step_def
      business_step_def contact_step_def sentiment_step_def upload_step_def
      engagement_step_def followers_step_def likelihood_of_def)

section \<open>Properties of the content classifier and the sentiment scorer\<close>

lemma count_matches:
  assumes "distinct ks"
  shows "sum_list (map (\<lambda>keyword. c) (filter P ks))
           = (c::'a::comm_semiring_1) * of_nat (card {k \<in> set ks. P k})"
proof -
  have e: "{k \<in> set ks. P k} = set (filter P ks)"
    by auto
  have "card (set (filter P ks)) = length (filter P ks)"
    using assms by (intro distinct_card) simp
  then have "card {k \<in> set ks. P k} = length (filter P ks)"
    unfolding e .
  then show ?thesis
    by (simp add: sum_list_triv mult.commute)
qed

lemma matched_set: "{k \<in> set ks. P k} = set (filter P ks)"
  by auto

lemma distinct_dev_keywords: "distinct dev_keywords"
  by (simp add: dev_keywords_def)

lemma distinct_creator_keywords: "distinct creator_keywords"
  by (simp add: creator_keywords_def)

lemma distinct_non_gaming: "distinct non_gaming"
  by (simp add: non_gaming_def)

lemma distinct_positive_keywords: "distinct positive_keywords"
  by (simp add: positive_keywords_def)

lemma distinct_negative_keywords: "distinct negative_keywords"
  by (simp add: negative_keywords_def)

lemma distinct_neutral_keywords: "distinct neutral_keywords"
  by (simp add: neutral_keywords_def)

lemmas eval_str = py_in_def sublist_code lower_def lower_char_def is_upper_def

text \<open>
  C7. \<open>is_gaming_channel\<close> lower-cases description, a space and the space-joined titles;
  with dev_score twice the number of developer phrases occurring in that text,
  creator_score the number of creator phrases and non_gaming_score the number of off-topic
  phrases, it returns False if dev_score > 1, else False if
  non_gaming_score > creator_score, else whether creator_score >= 2. In particular a tie
  between non_gaming_score and creator_score does not reject.
\<close>

theorem is_gaming_channel_decision:
  fixes description :: string and video_titles :: "string list"
  defines "text \<equiv> lower (description @ '' '' @ py_join '' '' video_titles)"
  defines "dev_score \<equiv> 2 * int (card {k \<in> set dev_keywords. sublist k text})"
  defines "creator_score \<equiv> int (card {k \<in> set creator_keywords. sublist k text})"
  defines "non_gaming_score \<equiv> int (card {k \<in> set non_gaming. sublist k text})"
  shows "is_gaming_channel description video_titles =
           (if dev_score > 1 then False
            else if non_gaming_score > creator_score then False
            else creator_score \<ge> 2)
         \<and> (dev_score \<le> 1 \<and> non_gaming_score = creator_score \<longrightarrow>
              is_gaming_channel description video_titles = (creator_score \<ge> 2))"
proof -
  have main: "is_gaming_channel description video_titles =
           (if dev_score > 1 then False
            else if non_gaming_score > creator_score then False
            else creator_score \<ge> 2)"
    unfolding is_gaming_channel_def Let_def py_in_def
      count_matches [OF distinct_dev_keywords] count_matches [OF distinct_creator_keywords]
      count_matches [OF distinct_non_gaming]
    by (simp add: text_def dev_score_def creator_score_def non_gaming_score_def)
  then show ?thesis
    by simp
qed

lemma tie_text_lower:
  "lower (''Gameplay and Speedrun vlog'' @ '' '' @ py_join '' '' [''Cooking'', ''x''])
     = ''gameplay and speedrun vlog cooking x''"
  by (simp add: eval_str)

lemma tie_creator:
  "filter (\<lambda>k. sublist k ''gameplay and speedrun vlog cooking x'') creator_keywords
     = [''gameplay'', ''speedrun'']"
  unfolding creator_keywords_def by (simp add: sublist_code)

lemma tie_non_gaming:
  "filter (\<lambda>k. sublist k ''gameplay and speedrun vlog cooking x'') non_gaming
     = [''vlog'', ''cooking'']"
  unfolding non_gaming_def by (simp add: sublist_code)

lemma tie_dev:
  "filter (\<lambda>k. sublist k ''gameplay and speedrun vlog cooking x'') dev_keywords = []"
  unfolding dev_keywords_def by (simp add: sublist_code)

theorem is_gaming_channel_decision_witness:
  "is_gaming_channel ''Gameplay and Speedrun vlog'' [''Cooking'', ''x''] = True"
  using is_gaming_channel_decision [of "''Gameplay and Speedrun vlog''" "[''Cooking'', ''x'']"]
  unfolding tie_text_lower matched_set tie_creator tie_non_gaming tie_dev
  by simp


lemma py_round2_half: "py_round2 (of_int k / 2) = of_int k / 2"
proof -
  have "real_of_int k / 2 * 100 = of_int (50 * k)"
    by simp
  then have "round_half_even (of_int k / 2 * 100) = 50 * k"
    unfolding round_half_even_def Let_def by (simp only: floor_of_int) simp
  then show ?thesis
    by (simp add: py_round2_def)
qed

lemma clamp_half:
  "max (-10) (min 10 (real p * 2 - real n * 3 + real u * (1 / 2)))
     = of_int (max (-20) (min 20 (4 * int p - 6 * int n + int u))) / 2"
  by (simp add: max_def min_def field_simps)

text \<open>
  C6. For a non-empty text, with p, n and u the numbers of positive, negative and neutral
  keywords occurring in the lower-cased text, the returned score is 2p - 3n + u/2 clamped
  to [-10, 10], and the category is very_positive iff score >= 3, positive iff
  1 <= score < 3, neutral iff -1 <= score < 1, negative iff -3 <= score < -1 and
  very_negative iff score < -3.
\<close>

theorem analyze_sentiment_score_category:
  fixes bio :: string
  defines "p \<equiv> card {k \<in> set positive_keywords. sublist k (lower bio)}"
  defines "n \<equiv> card {k \<in> set negative_keywords. sublist k (lower bio)}"
  defines "u \<equiv> card {k \<in> set neutral_keywords. sublist k (lower bio)}"
  defines "s \<equiv> max (-10) (min 10 (2 * real p - 3 * real n + real u / 2))"
  assumes "bio \<noteq> []"
  shows "sent_score (analyze_sentiment bio) = s
         \<and> -10 \<le> s \<and> s \<le> 10
         \<and> (sentiment (analyze_sentiment bio) = ''very_positive'' \<longleftrightarrow> s \<ge> 3)
         \<and> (sentiment (analyze_sentiment bio) = ''positive'' \<longleftrightarrow> 1 \<le> s \<and> s < 3)
         \<and> (sentiment (analyze_sentiment bio) = ''neutral'' \<longleftrightarrow> -1 \<le> s \<and> s < 1)
         \<and> (sentiment (analyze_sentiment bio) = ''negative'' \<longleftrightarrow> -3 \<le> s \<and> s < -1)
         \<and> (sentiment (analyze_sentiment bio) = ''very_negative'' \<longleftrightarrow> s < -3)"
proof -
  have s_eq: "s = max (-10) (min 10 (real p * 2 - real n * 3 + real u * (1 / 2)))"
    by (simp add: s_def mult.commute)
  have res: "sent_score (analyze_sentiment bio) = py_round2 s
      \<and> sentiment (analyze_sentiment bio) = sentiment_of s"
    using \<open>bio \<noteq> []\<close>
    unfolding analyze_sentiment_def Let_def py_in_def s_eq
      count_matches [OF distinct_positive_keywords] count_matches [OF distinct_negative_keywords]
      count_matches [OF distinct_neutral_keywords]
    by (simp add: p_def n_def u_def mult.commute)
  have "py_round2 s = s"
    unfolding s_eq clamp_half by (rule py_round2_half)
  moreover have "-10 \<le> s \<and> s \<le> 10"
    by (simp add: s_def)
  ultimately show ?thesis
    using res by (simp add: sentiment_of_def)
qed

lemma sentiment_example_lower:
  "lower ''I love INDIE games and variety'' = ''i love indie games and variety''"
  by (simp add: eval_str)

lemma sentiment_example_positive:
  "filter (\<lambda>k. sublist k ''i love indie games and variety'') positive_keywords = [''indie'']"
  unfolding positive_keywords_def by (simp add: sublist_code)

lemma sentiment_example_negative:
  "filter (\<lambda>k. sublist k ''i love indie games and variety'') negative_keywords = []"
  unfolding negative_keywords_def by (simp add: sublist_code)

lemma sentiment_example_neutral:
  "filter (\<lambda>k. sublist k ''i love indie games and variety'') neutral_keywords = [''variety'']"
  unfolding neutral_keywords_def by (simp add: sublist_code)

theorem analyze_sentiment_score_category_witness:
  "sent_score (analyze_sentiment ''I love INDIE games and variety'') = 5 / 2
   \<and> sentiment (analyze_sentiment ''I love INDIE games and variety'') = ''positive''"
proof -
  have ne: "''I love INDIE games and variety'' \<noteq> []"
    by simp
  show ?thesis
    using analyze_sentiment_score_category [OF ne]
    unfolding sentiment_example_lower matched_set sentiment_example_positive
      sentiment_example_negative sentiment_example_neutral
    by simp
qed

section \<open>Properties of the ledger\<close>

lemma dict_set_keys_present:
  "map_of d k = Some v0 \<Longrightarrow> map fst (dict_set d k v) = map fst d"
  by (simp add: dict_set_def update_keys map_of_eq_None_iff [symmetric] del: map_of_eq_None_iff)

lemma map_of_dict_set: "map_of (dict_set d k v) = (map_of d)(k \<mapsto> v)"
  by (simp add: dict_set_def update_conv')

lemma same_other_fields_refl: "same_other_fields entry entry"
  by (simp add: same_other_fields_def)

lemma same_other_fields_mark:
  "same_other_fields entry
     (dict_set (dict_set entry ''sent'' (PyBool True)) ''sent_date'' (PyStr now))"
  by (simp add: same_other_fields_def map_of_dict_set)

lemma same_other_fields_trans:
  "same_other_fields a b \<Longrightarrow> same_other_fields b c \<Longrightarrow> same_other_fields a c"
  by (simp add: same_other_fields_def)

lemma mark_loop_keys: "map fst (mark_loop clock t addrs l) = map fst l"
proof (induction addrs arbitrary: l t)
  case Nil
  then show ?case by simp
next
  case (Cons email rest)
  show ?case
  proof (cases "map_of l email")
    case None
    then show ?thesis using Cons.IH by simp
  next
    case (Some entry)
    then show ?thesis
      using Cons.IH by (simp add: Let_def dict_set_keys_present)
  qed
qed

lemma mark_loop_unlisted:
  "e \<notin> set addrs \<Longrightarrow> map_of (mark_loop clock t addrs l) e = map_of l e"
proof (induction addrs arbitrary: l t)
  case Nil
  then show ?case by simp
next
  case (Cons email rest)
  then show ?case
    by (cases "map_of l email") (simp_all add: Let_def map_of_dict_set)
qed

lemma mark_loop_other_fields:
  "map_of l e = Some entry \<Longrightarrow>
   \<exists>entry'. map_of (mark_loop clock t addrs l) e = Some entry' \<and> same_other_fields entry entry'"
proof (induction addrs arbitrary: l t entry)
  case Nil
  then show ?case by (auto intro: same_other_fields_refl)
next
  case (Cons email rest)
  show ?case
  proof (cases "map_of l email")
    case None
    then show ?thesis using Cons by simp
  next
    case (Some entry0)
    let ?m = "dict_set (dict_set entry0 ''sent'' (PyBool True)) ''sent_date'' (PyStr (clock t))"
    let ?l = "dict_set l email ?m"
    show ?thesis
    proof (cases "e = email")
      case True
      then have "entry0 = entry" using Some Cons.prems by simp
      have "map_of ?l e = Some ?m" using True by (simp add: map_of_dict_set)
      from Cons.IH [OF this, of "Suc t"] obtain entry' where
        e': "map_of (mark_loop clock (Suc t) rest ?l) e = Some entry'" "same_other_fields ?m entry'"
        by blast
      have "same_other_fields entry entry'"
        using same_other_fields_trans [OF same_other_fields_mark e'(2)] \<open>entry0 = entry\<close> by simp
      then show ?thesis using e'(1) Some by (auto simp add: Let_def)
    next
      case False
      then have "map_of ?l e = Some entry" using Cons.prems by (simp add: map_of_dict_set)
      from Cons.IH [OF this, of "Suc t"] show ?thesis using Some by (simp add: Let_def)
    qed
  qed
qed

lemma mark_loop_keeps_marked:
  "map_of l e = Some entry \<Longrightarrow> marked_sent clock entry \<Longrightarrow>
   \<exists>entry'. map_of (mark_loop clock t addrs l) e = Some entry' \<and> marked_sent clock entry'"
proof (induction addrs arbitrary: l t entry)
  case Nil
  then show ?case by simp
next
  case (Cons email rest)
  show ?case
  proof (cases "map_of l email")
    case None
    then show ?thesis using Cons by simp
  next
    case (Some entry0)
    let ?m = "dict_set (dict_set entry0 ''sent'' (PyBool True)) ''sent_date'' (PyStr (clock t))"
    let ?l = "dict_set l email ?m"
    have m: "marked_sent clock ?m"
      by (auto simp add: marked_sent_def map_of_dict_set)
    show ?thesis
    proof (cases "e = email")
      case True
      then have "map_of ?l e = Some ?m" by (simp add: map_of_dict_set)
      from Cons.IH [OF this m, of "Suc t"] show ?thesis using Some by (simp add: Let_def)
    next
      case False
      then have "map_of ?l e = Some entry" using Cons.prems by (simp add: map_of_dict_set)
      from Cons.IH [OF this Cons.prems(2), of "Suc t"] show ?thesis using Some by (simp add: Let_def)
    qed
  qed
qed

lemma mark_loop_listed:
  "e \<in> set addrs \<Longrightarrow> map_of l e = Some entry \<Longrightarrow>
   \<exists>entry'. map_of (mark_loop clock t addrs l) e = Some entry' \<and> marked_sent clock entry'"
proof (induction addrs arbitrary: l t entry)
  case Nil
  then show ?case by simp
next
  case (Cons email rest)
  show ?case
  proof (cases "map_of l email")
    case None
    then have "e \<noteq> email" using Cons.prems by auto
    then show ?thesis using Cons None by simp
  next
    case (Some entry0)
    let ?m = "dict_set (dict_set entry0 ''sent'' (PyBool True)) ''sent_date'' (PyStr (clock t))"
    let ?l = "dict_set l email ?m"
    have m: "marked_sent clock ?m"
      by (auto simp add: marked_sent_def map_of_dict_set)
    show ?thesis
    proof (cases "e = email")
      case True
      then have "map_of ?l e = Some ?m" by (simp add: map_of_dict_set)
      from mark_loop_keeps_marked [OF this m, of "Suc t" rest]
      show ?thesis using Some by (simp add: Let_def)
    next
      case False
      then have 1: "map_of ?l e = Some entry" using Cons.prems by (simp add: map_of_dict_set)
      have 2: "e \<in> set rest" using False Cons.prems by simp
      from Cons.IH [OF 2 1, of "Suc t"] show ?thesis using Some by (simp add: Let_def)
    qed
  qed
qed

text \<open>
  C9. \<open>mark_as_sent\<close> rewrites the ledger file with the same addresses in the same order;
  the entry of an address that is not listed is unchanged; every entry keeps all its fields
  other than \<open>sent\<close> and \<open>sent_date\<close> (key, influencer, platform, followers,
  assigned_date, responded, draft_created); the entry of a listed address gets the sent
  flag and a sent date; and an address absent from the ledger stays absent, with no error.
\<close>

theorem mark_as_sent_frame:
  fixes ledger_file :: "ledger option"
  defines "before \<equiv> load_key_assignments ledger_file"
  shows "\<exists>after. mark_as_sent clock email_addresses ledger_file = Some after
      \<and> map fst after = map fst before
      \<and> (\<forall>e. e \<notin> set email_addresses \<longrightarrow> map_of after e = map_of before e)
      \<and> (\<forall>e entry. map_of before e = Some entry \<longrightarrow>
            (\<exists>entry'. map_of after e = Some entry' \<and> same_other_fields entry entry'
               \<and> (e \<in> set email_addresses \<longrightarrow> marked_sent clock entry')))
      \<and> (\<forall>e. map_of before e = None \<longrightarrow> map_of after e = None)"
proof -
  let ?after = "mark_loop clock 0 email_addresses before"
  have run: "mark_as_sent clock email_addresses ledger_file = Some ?after"
    by (simp add: mark_as_sent_def save_key_assignment_def before_def)
  have keys: "map fst ?after = map fst before"
    by (rule mark_loop_keys)
  have unlisted: "\<forall>e. e \<notin> set email_addresses \<longrightarrow> map_of ?after e = map_of before e"
    by (simp add: mark_loop_unlisted)
  have fields: "\<exists>entry'. map_of ?after e = Some entry' \<and> same_other_fields entry entry'
               \<and> (e \<in> set email_addresses \<longrightarrow> marked_sent clock entry')"
    if h: "map_of before e = Some entry" for e entry
  proof -
    obtain entry' where 1: "map_of ?after e = Some entry'" "same_other_fields entry entry'"
      using mark_loop_other_fields [OF h, of clock 0 email_addresses] by blast
    have "marked_sent clock entry'" if l: "e \<in> set email_addresses"
      using mark_loop_listed [OF l h, of clock 0] 1(1) by auto
    then show ?thesis using 1 by blast
  qed
  have absent: "map_of ?after e = None" if "map_of before e = None" for e
  proof -
    have "e \<notin> fst ` set before"
      using that by (simp add: map_of_eq_None_iff)
    moreover have "fst ` set ?after = fst ` set before"
      using keys by (metis set_map)
    ultimately show ?thesis
      by (simp add: map_of_eq_None_iff)
  qed
  show ?thesis
  proof (intro exI [of _ ?after] conjI allI impI)
    show "mark_as_sent clock email_addresses ledger_file = Some ?after"
      by (rule run)
    show "map fst ?after = map fst before"
      by (rule keys)
    show "map_of ?after e = map_of before e" if "e \<notin> set email_addresses" for e
      using unlisted that by blast
    show "\<exists>entry'. map_of ?after e = Some entry' \<and> same_other_fields entry entry'
               \<and> (e \<in> set email_addresses \<longrightarrow> marked_sent clock entry')"
      if "map_of before e = Some entry" for e entry
      using that by (rule fields)
    show "map_of ?after e = None" if "map_of before e = None" for e
      using that by (rule absent)
  qed
qed

theorem mark_as_sent_frame_witness:
  "\<exists>after. mark_as_sent (\<lambda>t. ''2025-10-10T09:00:00'') [''ann@site.org'', ''zed@site.org'']
        (Some [(''ann@site.org'', [(''key'', PyStr ''AAAAA-BBBBB-CCCCC''), (''sent'', PyBool False)]),
               (''bob@site.org'', [(''key'', PyStr ''DDDDD-EEEEE-FFFFF''), (''sent'', PyBool False)])])
      = Some after
    \<and> map fst after = [''ann@site.org'', ''bob@site.org'']
    \<and> map_of after ''bob@site.org'' = Some [(''key'', PyStr ''DDDDD-EEEEE-FFFFF''), (''sent'', PyBool False)]
    \<and> map_of after ''zed@site.org'' = None
    \<and> (\<exists>entry'. map_of after ''ann@site.org'' = Some entry'
          \<and> map_of entry' ''key'' = Some (PyStr ''AAAAA-BBBBB-CCCCC'')
          \<and> map_of entry' ''sent'' = Some (PyBool True))"
proof -
  let ?l = "[(''ann@site.org'', [(''key'', PyStr ''AAAAA-BBBBB-CCCCC''), (''sent'', PyBool False)]),
             (''bob@site.org'', [(''key'', PyStr ''DDDDD-EEEEE-FFFFF''), (''sent'', PyBool False)])]"
  obtain after where a:
    "mark_as_sent (\<lambda>t. ''2025-10-10T09:00:00'') [''ann@site.org'', ''zed@site.org''] (Some ?l) = Some after"
    "map fst after = map fst (load_key_assignments (Some ?l))"
    "\<forall>e. e \<notin> set [''ann@site.org'', ''zed@site.org''] \<longrightarrow>
         map_of after e = map_of (load_key_assignments (Some ?l)) e"
    "\<forall>e entry. map_of (load_key_assignments (Some ?l)) e = Some entry \<longrightarrow>
       (\<exists>entry'. map_of after e = Some entry' \<and> same_other_fields entry entry'
          \<and> (e \<in> set [''ann@site.org'', ''zed@site.org''] \<longrightarrow>
                marked_sent (\<lambda>t. ''2025-10-10T09:00:00'') entry'))"
    "\<forall>e. map_of (load_key_assignments (Some ?l)) e = None \<longrightarrow> map_of after e = None"
    using mark_as_sent_frame [of "\<lambda>t. ''2025-10-10T09:00:00''" "[''ann@site.org'', ''zed@site.org'']" "Some ?l"]
    by blast
  have 1: "map fst after = [''ann@site.org'', ''bob@site.org'']"
    using a(2) by (simp add: load_key_assignments_def)
  have 2: "map_of after ''bob@site.org'' = Some [(''key'', PyStr ''DDDDD-EEEEE-FFFFF''), (''sent'', PyBool False)]"
    using a(3) [rule_format, of "''bob@site.org''"] by (simp add: load_key_assignments_def)
  have 3: "map_of after ''zed@site.org'' = None"
    using a(5) [rule_format, of "''zed@site.org''"] by (simp add: load_key_assignments_def)
  obtain entry' where e: "map_of after ''ann@site.org'' = Some entry'"
      "same_other_fields [(''key'', PyStr ''AAAAA-BBBBB-CCCCC''), (''sent'', PyBool False)] entry'"
      "marked_sent (\<lambda>t. ''2025-10-10T09:00:00'') entry'"
    using a(4) [rule_format, of "''ann@site.org''" "[(''key'', PyStr ''AAAAA-BBBBB-CCCCC''), (''sent'', PyBool False)]"]
    by (auto simp add: load_key_assignments_def)
  have 4: "map_of entry' ''key'' = Some (PyStr ''AAAAA-BBBBB-CCCCC'')"
    using e(2) unfolding same_other_fields_def by simp
  have 5: "map_of entry' ''sent'' = Some (PyBool True)"
    using e(3) by (simp add: marked_sent_def)
  show ?thesis
    by (rule exI [of _ after]) (simp add: a(1) 1 2 3 e(1) 4 5)
qed

section \<open>Properties of the email extraction\<close>



















text \<open>
  C5. Whatever list \<open>extract_emails\<close> returns, it has no duplicate, and no address in it
  contains, once lower-cased, one of the markers example.com, domain.com, email.com,
  youremail, noreply, support@. Some list is always returned.
\<close>

theorem extract_emails_skips_placeholders:
  "(\<exists>res. extract_emails s res)
   \<and> (extract_emails s res \<longrightarrow>
        distinct res \<and> (\<forall>email \<in> set res. \<forall>skip \<in> set skip_list. \<not> sublist skip (lower email)))"
proof
  have "extract_emails s (if s = [] then [] else remdups (filtered_emails s))"
    by (simp add: extract_emails_def list_of_set_def)
  then show "\<exists>res. extract_emails s res" ..
next
  show "extract_emails s res \<longrightarrow>
        distinct res \<and> (\<forall>email \<in> set res. \<forall>skip \<in> set skip_list. \<not> sublist skip (lower email))"
  proof
  assume r: "extract_emails s res"
  show "distinct res \<and> (\<forall>email \<in> set res. \<forall>skip \<in> set skip_list. \<not> sublist skip (lower email))"
  proof (cases "s = []")
    case True
    then show ?thesis using r by (simp add: extract_emails_def)
  next
    case False
    then have "distinct res" "set res = set (filtered_emails s)"
      using r by (simp_all add: extract_emails_def list_of_set_def)
    then show ?thesis
      by (auto simp add: filtered_emails_def Let_def list_ex_iff py_in_def)
  qed
  qed
qed

theorem extract_emails_skips_placeholders_witness:
  "extract_emails ''Ann@site.org, NoReply@site.org ann@site.org Ann@site.org me@Example.com''
      [''ann@site.org'', ''Ann@site.org'']
   \<and> distinct [''ann@site.org'', ''Ann@site.org'']
   \<and> \<not> sublist ''noreply'' (lower ''Ann@site.org'')"
proof -
  have h: "extract_emails ''Ann@site.org, NoReply@site.org ann@site.org Ann@site.org me@Example.com''
      [''ann@site.org'', ''Ann@site.org'']"
    by code_simp
  have k: "''Ann@site.org'' \<in> set [''ann@site.org'', ''Ann@site.org'']" "''noreply'' \<in> set skip_list"
    by (simp_all add: skip_list_def)
  show ?thesis
    using extract_emails_skips_placeholders
      [of "''Ann@site.org, NoReply@site.org ann@site.org Ann@site.org me@Example.com''"
          "[''ann@site.org'', ''Ann@site.org'']"] h k
    by blast
qed

end
